theory Spec2Isabelle
  imports Main
begin

section \<open>Values and text\<close>

text \<open>
  The values that \<^verbatim>\<open>resp.json()\<close> hands to the program: \<^verbatim>\<open>None\<close>, booleans,
  integers, strings, lists and dictionaries. A dictionary is an association list whose
  keys are pairwise different, in insertion order. A character stands for one code point
  below 256; a field name is only ever compared for equality, and the two names with a
  macron are written with the two bytes of its UTF-8 form.
\<close>

datatype jval =
    JNull
  | JBool bool
  | JNum int
  | JStr string
  | JList "jval list"
  | JObj "(string \<times> jval) list"

text \<open>\<^verbatim>\<open>str.isspace\<close> on the code points below 256.\<close>

definition isspace :: "char \<Rightarrow> bool" where
  "isspace c =
     (let n = (of_char c :: nat)
      in (9 \<le> n \<and> n \<le> 13) \<or> (28 \<le> n \<and> n \<le> 32) \<or> n = 133 \<or> n = 160)"

text \<open>\<^verbatim>\<open>str.strip()\<close>: leading and trailing white space removed.\<close>

definition strip :: "string \<Rightarrow> string" where
  "strip s = rev (dropWhile isspace (rev (dropWhile isspace s)))"

section \<open>Constants\<close>

definition FIELDS :: "string list" where
  "FIELDS =
    [''School_Id'', ''Org_Name'', ''Telephone'', ''Fax'', ''Email'', ''Contact1_Name'', ''URL'',
     ''Add1_Line1'', ''Add1_Suburb'', ''Add1_City'', ''Add2_Line1'', ''Add2_Suburb'',
     ''Add2_City'', ''Add2_Postal_Code'', ''Authority'', ''Territorial_Authority'',
     ''Regional_Council'', ''General_Electorate'',
     ''M'' @ [CHR 0xC4, CHR 0x81] @ ''ori_Electorate'', ''Ward'',
     ''Latitude'', ''Longitude'', ''EQi_Index'', ''Roll_Date'', ''Total'', ''European'',
     ''M'' @ [CHR 0xC4, CHR 0x81] @ ''ori'', ''Pacific'', ''Asian'', ''MELAA'', ''Other'',
     ''International'', ''Status'', ''DateSchoolOpened'']"

definition FIELD_ALIASES :: "(string \<times> string) list" where
  "FIELD_ALIASES = [(''School_Id'', ''MoEID'')]"

definition ROLL_DATA_START_COLUMN :: string where
  "ROLL_DATA_START_COLUMN = ''AY''"

definition ROLL_DATA_END_COLUMN :: string where
  "ROLL_DATA_END_COLUMN = ''BM''"

section \<open>Record normalizer\<close>

text \<open>
  \<^verbatim>\<open>normalize_value\<close>: the branches in the order of the source. The last equation is
  the final \<^verbatim>\<open>return val\<close>, reached by booleans and numbers.
\<close>

fun normalize_value :: "jval \<Rightarrow> jval" where
  "normalize_value JNull = JStr ''-''"
| "normalize_value (JStr val) = (let s = strip val in if s \<noteq> [] then JStr s else JStr ''-'')"
| "normalize_value (JList val) = (if length val = 0 then JStr ''-'' else JList val)"
| "normalize_value (JObj val) = (if length val = 0 then JStr ''-'' else JObj val)"
| "normalize_value val = val"

text \<open>\<^verbatim>\<open>rec.get(f, None)\<close> on a raw record.\<close>

definition rec_get :: "(string \<times> jval) list \<Rightarrow> string \<Rightarrow> jval" where
  "rec_get rec f = (case map_of rec f of None \<Rightarrow> JNull | Some v \<Rightarrow> v)"

text \<open>\<^verbatim>\<open>project_record\<close>: the dictionary comprehension over \<^verbatim>\<open>FIELDS\<close>, in order.\<close>

definition project_record :: "(string \<times> jval) list \<Rightarrow> (string \<times> jval) list" where
  "project_record rec = map (\<lambda>f. (f, normalize_value (rec_get rec f))) FIELDS"

section \<open>Paginated fetch\<close>

text \<open>
  The body of a response of the datastore: \<^verbatim>\<open>{success, result: {total, records_total,
  records}}\<close>. \<open>None\<close> is a key that is absent or \<^verbatim>\<open>null\<close>. The totals are the
  integers of the interface.
\<close>

record result_obj =
  res_total :: "int option"
  res_records_total :: "int option"
  res_records :: "(string \<times> jval) list list option"

record response =
  resp_success :: "bool option"
  resp_result :: "result_obj option"

text \<open>
  What one call of \<^verbatim>\<open>fetch_page\<close> gives: an exception of the transport
  (\<^verbatim>\<open>session.get\<close> or \<^verbatim>\<open>raise_for_status\<close>) or the decoded body.
\<close>

datatype reply = HttpError | Json response

datatype fetch_error =
    TransportError
  | InitialFailure
  | PageFailure nat

text \<open>A request: the \<^verbatim>\<open>offset\<close> and the \<^verbatim>\<open>limit\<close> of its parameters.\<close>

type_synonym request = "nat \<times> int"

text \<open>Truth value of \<^verbatim>\<open>x.get("success")\<close>.\<close>

definition truthy :: "bool option \<Rightarrow> bool" where
  "truthy b = (b = Some True)"

text \<open>\<^verbatim>\<open>x or y\<close> on optional integers: \<^verbatim>\<open>None\<close> and \<^verbatim>\<open>0\<close> are false.\<close>

definition py_or :: "int option \<Rightarrow> int option \<Rightarrow> int option" where
  "py_or x y = (case x of None \<Rightarrow> y | Some n \<Rightarrow> if n \<noteq> 0 then Some n else y)"

text \<open>\<^verbatim>\<open>page.get("result", {})\<close>.\<close>

definition get_result :: "response \<Rightarrow> result_obj" where
  "get_result page =
     (case resp_result page of
        None \<Rightarrow> \<lparr>res_total = None, res_records_total = None, res_records = None\<rparr>
      | Some r \<Rightarrow> r)"

text \<open>\<^verbatim>\<open>result.get("records", []) or []\<close>.\<close>

definition get_records :: "result_obj \<Rightarrow> (string \<times> jval) list list" where
  "get_records r = (case res_records r of None \<Rightarrow> [] | Some rs \<Rightarrow> rs)"

text \<open>
  The total the loop runs against: \<^verbatim>\<open>total\<close>, else \<^verbatim>\<open>records_total\<close>, else the
  number of records of the first page.
\<close>

definition reported_total :: "result_obj \<Rightarrow> int" where
  "reported_total r =
     (case py_or (res_total r) (res_records_total r) of
        None \<Rightarrow> int (length (get_records r))
      | Some t \<Rightarrow> t)"

text \<open>
  The \<^verbatim>\<open>while fetched < total\<close> loop (\<open>total_rows\<close> is the source's
  \<^verbatim>\<open>total\<close>). The remote source is the sequence \<open>srv\<close> of its
  replies, \<open>srv n\<close> answering the \<open>n\<close>-th request of the session. The result is the list
  of requests issued, and the exception raised or the records returned.
\<close>

function fetch_loop ::
  "(nat \<Rightarrow> reply) \<Rightarrow> int \<Rightarrow> int \<Rightarrow> nat \<Rightarrow> nat \<Rightarrow> nat \<Rightarrow> (string \<times> jval) list list
   \<Rightarrow> request list \<times> (fetch_error + (string \<times> jval) list list)" where
  "fetch_loop srv limit_per_page total_rows n fetched offset projected =
     (if int fetched < total_rows then
        (case srv n of
           HttpError \<Rightarrow> ([(offset, limit_per_page)], Inl TransportError)
         | Json page \<Rightarrow>
             if \<not> truthy (resp_success page)
             then ([(offset, limit_per_page)], Inl (PageFailure offset))
             else if get_records (get_result page) = []
             then ([(offset, limit_per_page)], Inr projected)
             else apfst ((#) (offset, limit_per_page))
                    (fetch_loop srv limit_per_page total_rows (Suc n)
                       (fetched + length (get_records (get_result page)))
                       (offset + length (get_records (get_result page)))
                       (projected @ map project_record (get_records (get_result page)))))
      else ([], Inr projected))"
  by pat_completeness auto
termination
  by (relation "measure (\<lambda>(srv, limit_per_page, total_rows, n, fetched, offset, projected).
                   nat (total_rows - int fetched))") auto

definition fetch_all_projected_records ::
  "(nat \<Rightarrow> reply) \<Rightarrow> int
   \<Rightarrow> request list \<times> (fetch_error + (string \<times> jval) list list)" where
  "fetch_all_projected_records srv limit_per_page =
     (case srv 0 of
        HttpError \<Rightarrow> ([(0, limit_per_page)], Inl TransportError)
      | Json first \<Rightarrow>
          if \<not> truthy (resp_success first)
          then ([(0, limit_per_page)], Inl InitialFailure)
          else
            let result = get_result first;
                total_rows = reported_total result;
                records = get_records result;
                projected = map project_record records;
                fetched = length records;
                offset = fetched
            in apfst ((#) (0, limit_per_page))
                 (fetch_loop srv limit_per_page total_rows 1 fetched offset projected))"

section \<open>Roll data\<close>

text \<open>
  The sheet that \<^verbatim>\<open>pd.read_excel\<close> returns: the column names (as \<^verbatim>\<open>str(col)\<close> prints
  them; \<^verbatim>\<open>read_excel\<close> makes them pairwise different) and the rows, each as long as
  the list of names. The cells are of any type \<open>'c\<close>.
\<close>

record 'c sheet =
  sheet_columns :: "string list"
  sheet_rows :: "'c list list"

text \<open>
  \<^verbatim>\<open>str.isalpha\<close>, \<^verbatim>\<open>str.lower\<close> and \<^verbatim>\<open>str.upper\<close> on the code points below 256.
  The capitals of the code points 181, 223 and 255 are not below 256 (that of 223 is
  \<^verbatim>\<open>SS\<close>); \<open>upper\<close> leaves them as they are, which does not change whether a label
  equals \<^verbatim>\<open>AY\<close> or \<^verbatim>\<open>BM\<close>.
\<close>

definition isalpha :: "char \<Rightarrow> bool" where
  "isalpha c =
     (let n = (of_char c :: nat)
      in (65 \<le> n \<and> n \<le> 90) \<or> (97 \<le> n \<and> n \<le> 122) \<or> n = 170 \<or> n = 181 \<or> n = 186
         \<or> (192 \<le> n \<and> n \<le> 214) \<or> (216 \<le> n \<and> n \<le> 246) \<or> (248 \<le> n \<and> n \<le> 255))"

definition lower :: "char \<Rightarrow> char" where
  "lower c =
     (let n = (of_char c :: nat)
      in if (65 \<le> n \<and> n \<le> 90) \<or> (192 \<le> n \<and> n \<le> 222 \<and> n \<noteq> 215)
         then char_of (n + 32) else c)"

definition upper :: "char \<Rightarrow> char" where
  "upper c =
     (let n = (of_char c :: nat)
      in if (97 \<le> n \<and> n \<le> 122) \<or> (224 \<le> n \<and> n \<le> 254 \<and> n \<noteq> 247)
         then char_of (n - 32) else c)"

text \<open>\<^verbatim>\<open>needle in hay\<close> on strings.\<close>

fun contains :: "string \<Rightarrow> string \<Rightarrow> bool" where
  "contains needle [] = (needle = [])"
| "contains needle (c # cs) =
     (take (length needle) (c # cs) = needle \<or> contains needle cs)"

text \<open>
  The search for the identifier column: the first name with \<^verbatim>\<open>school\<close> and \<^verbatim>\<open>id\<close>
  in its lower-case form, else the first column of a sheet that is not empty
  (\<^verbatim>\<open>df.empty\<close>: no column or no row), else \<^verbatim>\<open>None\<close>.
\<close>

definition is_school_id_name :: "string \<Rightarrow> bool" where
  "is_school_id_name col =
     (contains ''school'' (map lower col) \<and> contains ''id'' (map lower col))"

definition df_empty :: "'c sheet \<Rightarrow> bool" where
  "df_empty df = (sheet_columns df = [] \<or> sheet_rows df = [])"

definition find_school_id_col :: "'c sheet \<Rightarrow> string option" where
  "find_school_id_col df =
     (case find is_school_id_name (sheet_columns df) of
        Some col \<Rightarrow> Some col
      | None \<Rightarrow> if \<not> df_empty df then Some (hd (sheet_columns df)) else None)"

text \<open>
  The loop over \<^verbatim>\<open>enumerate(all_cols)\<close> that sets \<^verbatim>\<open>start_idx\<close> and \<^verbatim>\<open>end_idx\<close>:
  it has no \<^verbatim>\<open>break\<close>, every matching column overwrites the index.
\<close>

definition col_letter :: "string \<Rightarrow> string" where
  "col_letter col = filter isalpha col"

text \<open>\<^verbatim>\<open>col_letter.upper() == target.upper()\<close>.\<close>

definition label_is :: "string \<Rightarrow> string \<Rightarrow> bool" where
  "label_is target col = (map upper (col_letter col) = map upper target)"

definition band_step :: "nat \<times> string \<Rightarrow> nat option \<times> nat option \<Rightarrow> nat option \<times> nat option" where
  "band_step ic acc =
     (if label_is ROLL_DATA_START_COLUMN (snd ic) then Some (fst ic) else fst acc,
      if label_is ROLL_DATA_END_COLUMN (snd ic) then Some (fst ic) else snd acc)"

definition band_loop :: "string list \<Rightarrow> nat option \<times> nat option" where
  "band_loop all_cols = fold band_step (enumerate 0 all_cols) (None, None)"

text \<open>
  The band: \<^verbatim>\<open>all_cols[start_idx:end_idx+1]\<close> when both indices are set, else nothing
  (the branch that warns).
\<close>

definition band_columns :: "string list \<Rightarrow> string list" where
  "band_columns all_cols =
     (case band_loop all_cols of
        (Some start_idx, Some end_idx) \<Rightarrow> take (Suc end_idx - start_idx) (drop start_idx all_cols)
      | _ \<Rightarrow> [])"

definition band_found :: "string list \<Rightarrow> bool" where
  "band_found all_cols = (fst (band_loop all_cols) \<noteq> None \<and> snd (band_loop all_cols) \<noteq> None)"

text \<open>The cell of a row in the column of a given name.\<close>

definition cell :: "'c sheet \<Rightarrow> 'c list \<Rightarrow> string \<Rightarrow> 'c" where
  "cell df row col = row ! length (takeWhile (\<lambda>c. c \<noteq> col) (sheet_columns df))"

datatype cause = ReadError | KeyError | TypeError | ValueError

datatype load_error = RuntimeError cause

record 'c roll_table =
  warned :: bool
  roll_columns :: "string list"
  roll_rows :: "(int \<times> 'c list) list"

text \<open>
  \<^verbatim>\<open>load_roll_data\<close>. \<open>to_numeric\<close> is \<^verbatim>\<open>pd.to_numeric(_, errors='coerce')\<close> on one
  cell (\<open>None\<close> for a cell that does not coerce) and \<open>astype_int\<close> is \<^verbatim>\<open>astype(int)\<close>
  on one number (\<open>None\<close> for a number that has no integer, as an infinite one, on which
  \<^verbatim>\<open>astype\<close> raises); \<open>None\<close> for the sheet is \<^verbatim>\<open>read_excel\<close> raising. Every
  exception is caught and raised again as \<^verbatim>\<open>RuntimeError\<close>: selecting the column
  \<^verbatim>\<open>None\<close> is a \<^verbatim>\<open>KeyError\<close>, \<^verbatim>\<open>to_numeric\<close> on two columns named
  \<^verbatim>\<open>School_Id\<close> is a \<^verbatim>\<open>TypeError\<close>, and \<^verbatim>\<open>astype(int)\<close> on a number without
  integer is a \<^verbatim>\<open>ValueError\<close>. \<open>kept\<close> is the table after \<^verbatim>\<open>dropna\<close>. A row of the
  result is its identifier and its band cells.
\<close>

definition load_roll_data ::
  "('c \<Rightarrow> 'n option) \<Rightarrow> ('n \<Rightarrow> int option) \<Rightarrow> 'c sheet option
   \<Rightarrow> load_error + 'c roll_table" where
  "load_roll_data to_numeric astype_int read_excel =
     (case read_excel of
        None \<Rightarrow> Inl (RuntimeError ReadError)
      | Some df \<Rightarrow>
          (case find_school_id_col df of
             None \<Rightarrow> Inl (RuntimeError KeyError)
           | Some school_id_col \<Rightarrow>
               let all_cols = sheet_columns df;
                   cols_to_extract = school_id_col # band_columns all_cols;
                   renamed = map (\<lambda>c. if c = school_id_col then ''School_Id'' else c)
                               cols_to_extract;
                   kept = filter (\<lambda>row. to_numeric (cell df row school_id_col) \<noteq> None)
                            (sheet_rows df)
               in if length (filter (\<lambda>c. c = ''School_Id'') renamed) \<noteq> 1
                  then Inl (RuntimeError TypeError)
                  else if \<exists>row\<in>set kept.
                            astype_int (the (to_numeric (cell df row school_id_col))) = None
                  then Inl (RuntimeError ValueError)
                  else Inr \<lparr>warned = \<not> band_found all_cols,
                            roll_columns = renamed,
                            roll_rows =
                              map (\<lambda>row.
                                     (the (astype_int (the (to_numeric (cell df row school_id_col)))),
                                      map (cell df row) (band_columns all_cols)))
                                kept\<rparr>))"

section \<open>Matching registry and roll data\<close>

text \<open>
  The registry table is the one that \<^verbatim>\<open>on_generate\<close> builds: its \<^verbatim>\<open>School_Id\<close> is
  \<^verbatim>\<open>pd.to_numeric(_, errors='coerce').fillna(_)\<close>, a number where the value parses
  and the text it was where it does not. A row of \<^verbatim>\<open>df_schools\<close> is its \<^verbatim>\<open>School_Id\<close>
  and its other fields. The roll table is the one that \<^verbatim>\<open>load_roll_data\<close> returns,
  whose \<^verbatim>\<open>School_Id\<close> are integers: a row of \<^verbatim>\<open>df_rolls\<close> is its \<^verbatim>\<open>School_Id\<close>
  and its band cells.
\<close>

datatype 'n ident = IdNum 'n | IdText string













section \<open>Export\<close>

text \<open>
  The tables live in a store, a table being named by its address; the files written are
  kept beside it. \<^verbatim>\<open>df.copy()\<close> and \<^verbatim>\<open>df.rename(columns=...)\<close> without
  \<^verbatim>\<open>inplace\<close> each make a new table and leave theirs alone. A path is the directory
  and the file name that \<^verbatim>\<open>os.path.join\<close> puts together.
\<close>

record 'x dataframe =
  df_columns :: "string list"
  df_rows :: "'x list list"

type_synonym path = "string \<times> string"

datatype 'x written = CsvFile "'x dataframe" | XlsxFile "'x dataframe" "string list"

record 'x world =
  heap :: "'x dataframe list"
  files :: "(path \<times> 'x written) list"

definition df_copy :: "'x world \<Rightarrow> nat \<Rightarrow> 'x world \<times> nat" where
  "df_copy w df = (w\<lparr>heap := heap w @ [heap w ! df]\<rparr>, length (heap w))"

definition df_rename :: "(string \<Rightarrow> string) \<Rightarrow> 'x world \<Rightarrow> nat \<Rightarrow> 'x world \<times> nat" where
  "df_rename f w df =
     (w\<lparr>heap := heap w @ [(heap w ! df)\<lparr>df_columns := map f (df_columns (heap w ! df))\<rparr>]\<rparr>,
      length (heap w))"

definition write_file :: "'x world \<Rightarrow> path \<Rightarrow> 'x written \<Rightarrow> 'x world" where
  "write_file w p f = w\<lparr>files := (p, f) # filter (\<lambda>e. fst e \<noteq> p) (files w)\<rparr>"

text \<open>\<^verbatim>\<open>FIELD_ALIASES.get(col, col)\<close>.\<close>

definition field_alias :: "string \<Rightarrow> string" where
  "field_alias col = (case map_of FIELD_ALIASES col of None \<Rightarrow> col | Some a \<Rightarrow> a)"

text \<open>\<^verbatim>\<open>re.sub(r"[\\/:*?\"<>|]", "_", base_name)\<close>: the nine characters of the class.\<close>

definition re_sub_illegal :: "string \<Rightarrow> string" where
  "re_sub_illegal base_name =
     map (\<lambda>c. if c \<in> set [CHR 0x5C, CHR ''/'', CHR '':'', CHR ''*'', CHR ''?'', CHR 0x22,
                            CHR ''<'', CHR ''>'', CHR ''|'']
               then CHR ''_'' else c) base_name"

definition export_csv :: "'x world \<Rightarrow> nat \<Rightarrow> string \<Rightarrow> string \<Rightarrow> 'x world \<times> path" where
  "export_csv w df out_dir base_name =
     (let base = (let s = strip (re_sub_illegal base_name)
                  in if s \<noteq> [] then s else ''schools_filtered'');
          csv_path = (out_dir, base @ ''.csv'');
          (w1, df_export) = df_copy w df;
          (w2, df_export) = df_rename field_alias w1 df_export
      in (write_file w2 csv_path (CsvFile (heap w2 ! df_export)), csv_path))"

datatype export_error = ImportError

text \<open>
  \<^verbatim>\<open>export_excel_table\<close>; \<open>xlsxwriter\<close> tells whether the module can be imported. The
  workbook holds the renamed table and the headers \<^verbatim>\<open>aliased_fields\<close> of its table.
\<close>

definition export_excel_table ::
  "bool \<Rightarrow> 'x world \<Rightarrow> nat \<Rightarrow> string \<Rightarrow> string \<Rightarrow> export_error + 'x world \<times> path" where
  "export_excel_table xlsxwriter w df out_dir base_name =
     (if \<not> xlsxwriter then Inl ImportError
      else
        let base = (let s = strip (re_sub_illegal base_name)
                    in if s \<noteq> [] then s else ''schools_filtered'');
            xlsx_path = (out_dir, base @ ''.xlsx'');
            (w1, df_export) = df_copy w df;
            (w2, df_export) = df_rename field_alias w1 df_export;
            aliased_fields = map field_alias FIELDS
        in Inr (write_file w2 xlsx_path (XlsxFile (heap w2 ! df_export) aliased_fields),
                xlsx_path))"

section \<open>Example inputs\<close>

definition raw_example :: "(string \<times> jval) list" where
  "raw_example =
     [(''School_Id'', JStr '' 12 ''), (''Org_Name'', JNull), (''Fax'', JStr ''  ''),
      (''Total'', JNum 0), (''Email'', JList []), (''Extra'', JNum 1)]"




text \<open>Replies and sessions used as examples.\<close>

definition ok_page :: "int option \<Rightarrow> (string \<times> jval) list list \<Rightarrow> reply" where
  "ok_page t rs =
     Json \<lparr>resp_success = Some True,
           resp_result = Some \<lparr>res_total = t, res_records_total = None, res_records = Some rs\<rparr>\<rparr>"

definition failed_page :: reply where
  "failed_page = Json \<lparr>resp_success = Some False, resp_result = None\<rparr>"

definition school :: "string \<Rightarrow> (string \<times> jval) list" where
  "school i = [(''School_Id'', JStr i), (''Org_Name'', JStr ''A School'')]"




definition srv_fail :: "nat \<Rightarrow> reply" where
  "srv_fail n = (if n = 0 then ok_page (Some 3) [school ''1''] else failed_page)"


text \<open>Sheets used as examples; their cells are optional integers, coerced as they are.\<close>

definition band_sheet :: "int option sheet" where
  "band_sheet =
     \<lparr>sheet_columns = [''SchoolID'', ''AX'', ''AY'', ''AZ'', ''BM'', ''BN''],
      sheet_rows = [ [Some 7, Some 1, Some 2, Some 3, Some 4, Some 5],
                    [None, Some 1, Some 2, Some 3, Some 4, Some 5]]\<rparr>"

definition twice_sheet :: "int option sheet" where
  "twice_sheet =
     \<lparr>sheet_columns = [''SchoolID'', ''AY'', ''X'', ''AY.1'', ''BM''],
      sheet_rows = [ [Some 7, Some 1, Some 2, Some 3, Some 4]]\<rparr>"

definition plain_sheet :: "int option sheet" where
  "plain_sheet =
     \<lparr>sheet_columns = [''School ID'', ''Name''],
      sheet_rows = [ [Some 7, Some 1], [None, Some 2], [Some 9, None]]\<rparr>"

definition bare_sheet :: "int option sheet" where
  "bare_sheet = \<lparr>sheet_columns = [''Name''], sheet_rows = []\<rparr>"






text \<open>
  Numbers with an infinite one, on which \<^verbatim>\<open>astype(int)\<close> raises, and a sheet whose
  identifier column holds it (the text \<^verbatim>\<open>inf\<close> coerces to it).
\<close>

datatype number = Finite int | Infinite

definition astype_number :: "number \<Rightarrow> int option" where
  "astype_number n = (case n of Finite i \<Rightarrow> Some i | Infinite \<Rightarrow> None)"

definition inf_sheet :: "number option sheet" where
  "inf_sheet =
     \<lparr>sheet_columns = [''School ID'', ''Name''],
      sheet_rows = [ [Some (Finite 7), Some (Finite 1)], [Some Infinite, Some (Finite 2)]]\<rparr>"

definition world_example :: "string world" where
  "world_example =
     \<lparr>heap = [\<lparr>df_columns = [''School_Id'', ''Org_Name''], df_rows = [ [''1'', ''One School'']]\<rparr>],
      files = []\<rparr>"

section \<open>The record normalizer\<close>

lemma last_dropWhile_ne: "dropWhile P xs \<noteq> [] \<Longrightarrow> last (dropWhile P xs) = last xs"
  by (induction xs) (auto split: if_splits)

lemma dropWhile_hd_id: "xs \<noteq> [] \<Longrightarrow> \<not> P (hd xs) \<Longrightarrow> dropWhile P xs = xs"
  by (cases xs) auto

lemma strip_hd: "strip s \<noteq> [] \<Longrightarrow> \<not> isspace (hd (strip s))"
proof -
  assume ne: "strip s \<noteq> []"
  let ?d = "dropWhile isspace s"
  let ?e = "dropWhile isspace (rev ?d)"
  from ne have e: "?e \<noteq> []" by (simp add: strip_def)
  have d: "?d \<noteq> []"
  proof
    assume "?d = []"
    with e show False by simp
  qed
  have "hd (strip s) = last ?e" using e by (simp add: strip_def hd_rev)
  also have "\<dots> = last (rev ?d)" using e by (rule last_dropWhile_ne)
  also have "\<dots> = hd ?d" using d by (simp add: last_rev)
  finally show ?thesis using d hd_dropWhile[of isspace s] by simp
qed

lemma strip_last: "strip s \<noteq> [] \<Longrightarrow> \<not> isspace (last (strip s))"
proof -
  assume ne: "strip s \<noteq> []"
  let ?e = "dropWhile isspace (rev (dropWhile isspace s))"
  from ne have e: "?e \<noteq> []" by (simp add: strip_def)
  have "last (strip s) = hd ?e" using e by (simp add: strip_def last_rev)
  then show ?thesis using e hd_dropWhile[of isspace "rev (dropWhile isspace s)"] by simp
qed

lemma strip_idem: "strip (strip s) = strip s"
proof (cases "strip s = []")
  case True
  have "strip [] = []" by (simp add: strip_def)
  with True show ?thesis by simp
next
  case False
  have a: "dropWhile isspace (strip s) = strip s"
    using False strip_hd by (simp add: dropWhile_hd_id)
  have b: "dropWhile isspace (rev (strip s)) = rev (strip s)"
    using False strip_last[of s] by (simp add: dropWhile_hd_id hd_rev)
  show ?thesis
    unfolding strip_def[of "strip s"] a b by simp
qed

lemma strip_placeholder: "strip ''-'' = ''-''"
  by (simp add: strip_def isspace_def)

lemma normalize_value_not_blank:
  "normalize_value v \<noteq> JNull \<and> normalize_value v \<noteq> JList [] \<and> normalize_value v \<noteq> JObj []
   \<and> (\<forall>s. normalize_value v = JStr s \<longrightarrow> strip s \<noteq> [])"
proof (cases v)
  case JNull then show ?thesis by (simp add: strip_placeholder)
next
  case (JBool b) then show ?thesis by simp
next
  case (JNum n) then show ?thesis by simp
next
  case (JStr x)
  have "normalize_value (JStr x) = JStr (if strip x \<noteq> [] then strip x else ''-'')"
    by (simp add: Let_def)
  moreover have "strip (if strip x \<noteq> [] then strip x else ''-'') \<noteq> []"
    by (simp add: strip_placeholder strip_idem)
  ultimately show ?thesis unfolding JStr by simp
next
  case (JList xs) then show ?thesis by (cases xs) (simp_all add: strip_placeholder)
next
  case (JObj kvs) then show ?thesis by (cases kvs) (simp_all add: strip_placeholder)
qed

lemma normalize_value_cases:
  "normalize_value v =
     (if v = JNull \<or> v = JList [] \<or> v = JObj [] \<or> (\<exists>s. v = JStr s \<and> strip s = [])
      then JStr ''-''
      else case v of JStr s \<Rightarrow> JStr (strip s) | _ \<Rightarrow> v)"
proof (cases v)
  case JNull then show ?thesis by simp
next
  case (JBool b) then show ?thesis by simp
next
  case (JNum n) then show ?thesis by simp
next
  case (JStr s) then show ?thesis by (simp add: Let_def)
next
  case (JList xs) then show ?thesis by simp
next
  case (JObj kvs) then show ?thesis by simp
qed

lemma distinct_FIELDS: "distinct FIELDS"
  unfolding FIELDS_def by simp

lemma length_FIELDS: "length FIELDS = 34"
  unfolding FIELDS_def by simp

lemma map_of_map_key: "f \<in> set fs \<Longrightarrow> map_of (map (\<lambda>k. (k, g k)) fs) f = Some (g f)"
  by (induction fs) auto

lemma map_of_project_record:
  "f \<in> set FIELDS \<Longrightarrow> map_of (project_record r) f = Some (normalize_value (rec_get r f))"
  unfolding project_record_def by (rule map_of_map_key)

text \<open>
  Claim C4. For every raw record, the keys of the projected record are the 34 names of
  the fixed field list, each once and in its order; no value of it is null, a string
  that is empty once trimmed, an empty list or an empty dictionary; and each field holds
  the placeholder when the raw value (null when the key is missing) is one of those,
  the trimmed string when it is a string, and the raw value itself otherwise.
\<close>

theorem project_record_fixed_fields:
  "map fst (project_record r) = FIELDS \<and> length FIELDS = 34 \<and> distinct FIELDS
   \<and> (\<forall>v \<in> snd ` set (project_record r).
         v \<noteq> JNull \<and> v \<noteq> JList [] \<and> v \<noteq> JObj [] \<and> (\<forall>s. v = JStr s \<longrightarrow> strip s \<noteq> []))
   \<and> (\<forall>f \<in> set FIELDS.
         map_of (project_record r) f =
           Some (let v = rec_get r f
                 in if v = JNull \<or> v = JList [] \<or> v = JObj [] \<or> (\<exists>s. v = JStr s \<and> strip s = [])
                    then JStr ''-''
                    else case v of JStr s \<Rightarrow> JStr (strip s) | _ \<Rightarrow> v))"
proof (intro conjI ballI)
  show "map fst (project_record r) = FIELDS"
    by (simp add: project_record_def comp_def)
  show "length FIELDS = 34" by (rule length_FIELDS)
  show "distinct FIELDS" by (rule distinct_FIELDS)
next
  fix v assume "v \<in> snd ` set (project_record r)"
  then obtain f where v: "v = normalize_value (rec_get r f)"
    by (auto simp: project_record_def)
  show "v \<noteq> JNull" "v \<noteq> JList []" "v \<noteq> JObj []" "\<forall>s. v = JStr s \<longrightarrow> strip s \<noteq> []"
    using normalize_value_not_blank[of "rec_get r f"] unfolding v by simp_all
next
  fix f assume "f \<in> set FIELDS"
  then have "map_of (project_record r) f = Some (normalize_value (rec_get r f))"
    by (rule map_of_project_record)
  then show "map_of (project_record r) f =
           Some (let v = rec_get r f
                 in if v = JNull \<or> v = JList [] \<or> v = JObj [] \<or> (\<exists>s. v = JStr s \<and> strip s = [])
                    then JStr ''-''
                    else case v of JStr s \<Rightarrow> JStr (strip s) | _ \<Rightarrow> v)"
    unfolding Let_def using normalize_value_cases[of "rec_get r f"] by simp
qed

theorem project_record_fixed_fields_witness:
  "map fst (project_record raw_example) = FIELDS
   \<and> ''School_Id'' \<in> set FIELDS
   \<and> map_of (project_record raw_example) ''School_Id'' = Some (JStr ''12'')
   \<and> ''Org_Name'' \<in> set FIELDS
   \<and> map_of (project_record raw_example) ''Org_Name'' = Some (JStr ''-'')
   \<and> ''Total'' \<in> set FIELDS
   \<and> map_of (project_record raw_example) ''Total'' = Some (JNum 0)
   \<and> JStr ''-'' \<in> snd ` set (project_record raw_example)
   \<and> strip ''-'' \<noteq> []"
proof -
  note T = project_record_fixed_fields[of raw_example]
  note T1 = T[THEN conjunct1]
  note T4 = T[THEN conjunct2, THEN conjunct2, THEN conjunct2, THEN conjunct1]
  note T5 = T[THEN conjunct2, THEN conjunct2, THEN conjunct2, THEN conjunct2]
  have m: "''School_Id'' \<in> set FIELDS" "''Org_Name'' \<in> set FIELDS" "''Total'' \<in> set FIELDS"
    by (simp_all add: FIELDS_def)
  have g: "rec_get raw_example ''School_Id'' = JStr '' 12 ''"
          "rec_get raw_example ''Org_Name'' = JNull"
          "rec_get raw_example ''Total'' = JNum 0"
    by (simp_all add: rec_get_def raw_example_def)
  have s: "strip '' 12 '' = ''12''"
    by (simp add: strip_def isspace_def)
  have a: "map_of (project_record raw_example) ''School_Id'' = Some (JStr ''12'')"
    using bspec[OF T5 m(1)] by (simp add: g s)
  have b: "map_of (project_record raw_example) ''Org_Name'' = Some (JStr ''-'')"
    using bspec[OF T5 m(2)] by (simp add: g)
  have c: "map_of (project_record raw_example) ''Total'' = Some (JNum 0)"
    using bspec[OF T5 m(3)] by (simp add: g)
  have "(''Org_Name'', JStr ''-'') \<in> set (project_record raw_example)"
    using b by (rule map_of_SomeD)
  then have d: "JStr ''-'' \<in> snd ` set (project_record raw_example)"
    by (rule image_eqI[rotated]) simp
  have e: "strip ''-'' \<noteq> []"
    using bspec[OF T4 d] by simp
  show ?thesis
    using T1 a b c d e m by (intro conjI)
qed

text \<open>
  Claim C9. A value that is not null, not a string, not a list and not a dictionary is
  returned as it is: the number 0 and the boolean False stay what they are.
\<close>

theorem normalize_value_passes_scalars:
  "v \<noteq> JNull \<Longrightarrow> (\<forall>s. v \<noteq> JStr s) \<Longrightarrow> (\<forall>xs. v \<noteq> JList xs) \<Longrightarrow> (\<forall>kvs. v \<noteq> JObj kvs)
   \<Longrightarrow> normalize_value v = v \<and> normalize_value v \<noteq> JStr ''-''"
  by (cases v) auto

theorem normalize_value_passes_scalars_witness:
  "normalize_value (JNum 0) = JNum 0 \<and> normalize_value (JNum 0) \<noteq> JStr ''-''
   \<and> normalize_value (JBool False) = JBool False \<and> normalize_value (JBool False) \<noteq> JStr ''-''"
  using normalize_value_passes_scalars[of "JNum 0"] normalize_value_passes_scalars[of "JBool False"]
  by simp

section \<open>The paginated fetch\<close>

declare fetch_loop.simps [simp del]

lemma fetch_loop_done:
  "\<not> int fetched < T \<Longrightarrow> fetch_loop srv l T n fetched off proj = ([], Inr proj)"
  by (subst fetch_loop.simps) simp

lemma fetch_loop_http:
  "int fetched < T \<Longrightarrow> srv n = HttpError
   \<Longrightarrow> fetch_loop srv l T n fetched off proj = ([(off, l)], Inl TransportError)"
  by (subst fetch_loop.simps) simp

lemma fetch_loop_fail:
  "int fetched < T \<Longrightarrow> srv n = Json page \<Longrightarrow> \<not> truthy (resp_success page)
   \<Longrightarrow> fetch_loop srv l T n fetched off proj = ([(off, l)], Inl (PageFailure off))"
  by (subst fetch_loop.simps) simp

lemma fetch_loop_empty:
  "int fetched < T \<Longrightarrow> srv n = Json page \<Longrightarrow> truthy (resp_success page)
   \<Longrightarrow> get_records (get_result page) = []
   \<Longrightarrow> fetch_loop srv l T n fetched off proj = ([(off, l)], Inr proj)"
  by (subst fetch_loop.simps) simp

lemma fetch_loop_step:
  "int fetched < T \<Longrightarrow> srv n = Json page \<Longrightarrow> truthy (resp_success page)
   \<Longrightarrow> get_records (get_result page) \<noteq> []
   \<Longrightarrow> fetch_loop srv l T n fetched off proj =
       apfst ((#) (off, l))
         (fetch_loop srv l T (Suc n)
            (fetched + length (get_records (get_result page)))
            (off + length (get_records (get_result page)))
            (proj @ map project_record (get_records (get_result page))))"
  by (subst fetch_loop.simps) simp





lemma fetch_loop_failure:
  "k < length (fst (fetch_loop srv l T n fetched off proj)) \<Longrightarrow> srv (n + k) = Json bad
   \<Longrightarrow> \<not> truthy (resp_success bad)
   \<Longrightarrow> \<exists>off'. snd (fetch_loop srv l T n fetched off proj) = Inl (PageFailure off')"
proof (induction srv l T n fetched off proj arbitrary: k rule: fetch_loop.induct)
  case (1 srv l T n fetched off proj)
  show ?case
  proof (cases "int fetched < T")
    case False
    with "1.prems"(1) show ?thesis by (simp add: fetch_loop_done)
  next
    case lt: True
    show ?thesis
    proof (cases "srv n")
      case HttpError
      with lt "1.prems"(1) have "k = 0" by (simp add: fetch_loop_http)
      with "1.prems"(2) HttpError show ?thesis by simp
    next
      case (Json page)
      show ?thesis
      proof (cases "truthy (resp_success page)")
        case False
        with lt Json show ?thesis by (simp add: fetch_loop_fail)
      next
        case ok: True
        show ?thesis
        proof (cases "get_records (get_result page) = []")
          case True
          with lt Json ok "1.prems"(1) have "k = 0" by (simp add: fetch_loop_empty)
          with "1.prems"(2,3) Json ok show ?thesis by simp
        next
          case ne: False
          let ?k = "length (get_records (get_result page))"
          let ?rest = "fetch_loop srv l T (Suc n) (fetched + ?k) (off + ?k)
                         (proj @ map project_record (get_records (get_result page)))"
          have step: "fetch_loop srv l T n fetched off proj = apfst ((#) (off, l)) ?rest"
            using lt Json ok ne by (rule fetch_loop_step)
          show ?thesis
          proof (cases k)
            case 0
            with "1.prems"(2,3) Json ok show ?thesis by simp
          next
            case (Suc k')
            have a: "k' < length (fst ?rest)"
              using "1.prems"(1) Suc unfolding step by simp
            have b: "srv (Suc n + k') = Json bad"
              using "1.prems"(2) Suc by simp
            have "\<exists>off'. snd ?rest = Inl (PageFailure off')"
              using "1.IH" lt Json ok ne a b "1.prems"(3) by blast
            then show ?thesis unfolding step by simp
          qed
        qed
      qed
    qed
  qed
qed

text \<open>
  Claim C5. When a reply that the fetch asked for, the first or a later one, has a
  success flag that is false or absent, the fetch ends in an error (the initial failure
  for the first reply, a page failure for a later one) and returns no records at all.
\<close>

theorem fetch_fails_without_records:
  "k < length (fst (fetch_all_projected_records srv l)) \<Longrightarrow> srv k = Json bad
   \<Longrightarrow> \<not> truthy (resp_success bad)
   \<Longrightarrow> (k = 0 \<longrightarrow> snd (fetch_all_projected_records srv l) = Inl InitialFailure)
     \<and> (0 < k \<longrightarrow> (\<exists>off. snd (fetch_all_projected_records srv l) = Inl (PageFailure off)))
     \<and> (\<forall>recs. snd (fetch_all_projected_records srv l) \<noteq> Inr recs)"
proof -
  assume k: "k < length (fst (fetch_all_projected_records srv l))"
    and bad: "srv k = Json bad" "\<not> truthy (resp_success bad)"
  have "(k = 0 \<longrightarrow> snd (fetch_all_projected_records srv l) = Inl InitialFailure)
     \<and> (0 < k \<longrightarrow> (\<exists>off. snd (fetch_all_projected_records srv l) = Inl (PageFailure off)))"
  proof (cases "srv 0")
    case HttpError
    with k have "k = 0" by (simp add: fetch_all_projected_records_def)
    with bad HttpError show ?thesis by simp
  next
    case (Json first)
    show ?thesis
    proof (cases "truthy (resp_success first)")
      case False
      with Json k have "k = 0" by (simp add: fetch_all_projected_records_def)
      with False Json show ?thesis by (simp add: fetch_all_projected_records_def)
    next
      case True
      let ?recs = "get_records (get_result first)"
      let ?loop = "fetch_loop srv l (reported_total (get_result first)) 1
                     (length ?recs) (length ?recs) (map project_record ?recs)"
      have F: "fetch_all_projected_records srv l = apfst ((#) (0, l)) ?loop"
        using Json True by (simp add: fetch_all_projected_records_def Let_def)
      show ?thesis
      proof (cases k)
        case 0
        with bad Json True show ?thesis by simp
      next
        case (Suc k')
        have a: "k' < length (fst ?loop)" using k Suc unfolding F by simp
        have b: "srv (1 + k') = Json bad" using bad(1) Suc by simp
        have "\<exists>off'. snd ?loop = Inl (PageFailure off')"
          using a b bad(2) by (rule fetch_loop_failure)
        then show ?thesis using Suc unfolding F by simp
      qed
    qed
  qed
  then show ?thesis by (cases k) auto
qed

theorem fetch_fails_without_records_witness:
  "snd (fetch_all_projected_records srv_fail 1) = Inl (PageFailure 1)
   \<and> snd (fetch_all_projected_records srv_fail 1) \<noteq> Inr [project_record (school ''1'')]"
proof -
  have F: "fetch_all_projected_records srv_fail 1 = ([(0, 1), (1, 1)], Inl (PageFailure 1))"
    by (simp add: fetch_all_projected_records_def srv_fail_def ok_page_def failed_page_def
          truthy_def get_records_def get_result_def reported_total_def py_or_def
          fetch_loop.simps)
  have k: "1 < length (fst (fetch_all_projected_records srv_fail 1))"
    unfolding F by simp
  have b: "srv_fail 1 = Json \<lparr>resp_success = Some False, resp_result = None\<rparr>"
    by (simp add: srv_fail_def failed_page_def)
  have c: "\<not> truthy (resp_success \<lparr>resp_success = Some False, resp_result = None\<rparr>)"
    by (simp add: truthy_def)
  from fetch_fails_without_records[OF k b c] show ?thesis
    unfolding F by simp
qed









section \<open>The roll band\<close>

lemma band_fold_fst:
  "fst (fold band_step ics acc) =
     fold (\<lambda>ic a. if label_is ROLL_DATA_START_COLUMN (snd ic) then Some (fst ic) else a) ics (fst acc)"
  by (induction ics arbitrary: acc) (simp_all add: band_step_def)

lemma band_fold_snd:
  "snd (fold band_step ics acc) =
     fold (\<lambda>ic a. if label_is ROLL_DATA_END_COLUMN (snd ic) then Some (fst ic) else a) ics (snd acc)"
  by (induction ics arbitrary: acc) (simp_all add: band_step_def)

lemma last_fold_none:
  "\<forall>c\<in>set cs. \<not> P c
   \<Longrightarrow> fold (\<lambda>ic a. if P (snd ic) then Some (fst ic) else a) (enumerate k cs) a = a"
  by (induction cs arbitrary: k a) simp_all

lemma last_fold_split:
  "P c \<Longrightarrow> \<forall>z\<in>set zs. \<not> P z
   \<Longrightarrow> fold (\<lambda>ic a. if P (snd ic) then Some (fst ic) else a) (enumerate k (ys @ c # zs)) a
       = Some (k + length ys)"
  by (simp add: enumerate_append_eq last_fold_none)

lemma last_fold_iff:
  "fold (\<lambda>ic a. if P (snd ic) then Some (fst ic) else a) (enumerate 0 cs) None = Some s
   \<longleftrightarrow> s < length cs \<and> P (cs ! s) \<and> (\<forall>j. s < j \<and> j < length cs \<longrightarrow> \<not> P (cs ! j))"
  (is "?L = Some s \<longleftrightarrow> ?R")
proof
  assume L: "?L = Some s"
  have "\<exists>c\<in>set cs. P c"
  proof (rule ccontr)
    assume "\<not> (\<exists>c\<in>set cs. P c)"
    then have "?L = None" by (simp add: last_fold_none)
    with L show False by simp
  qed
  then obtain ys c zs where sp: "cs = ys @ c # zs" "P c" "\<forall>z\<in>set zs. \<not> P z"
    by (rule split_list_last_propE)
  have "?L = Some (length ys)"
    unfolding sp(1) using last_fold_split[OF sp(2,3), of 0 ys None] by simp
  with L have s: "s = length ys" by simp
  show ?R
  proof (intro conjI allI impI)
    show "s < length cs" unfolding s sp(1) by simp
    show "P (cs ! s)" unfolding s sp(1) using sp(2) by simp
    fix j assume j: "s < j \<and> j < length cs"
    then have "cs ! j = zs ! (j - Suc (length ys))" "j - Suc (length ys) < length zs"
      unfolding s sp(1) by (auto simp: nth_append nth_Cons')
    with sp(3) show "\<not> P (cs ! j)" by (metis nth_mem)
  qed
next
  assume R: ?R
  then have cs: "cs = take s cs @ cs ! s # drop (Suc s) cs"
    by (simp add: id_take_nth_drop)
  have "\<forall>z\<in>set (drop (Suc s) cs). \<not> P z"
  proof
    fix z assume "z \<in> set (drop (Suc s) cs)"
    then obtain i where "i < length (drop (Suc s) cs)" "z = drop (Suc s) cs ! i"
      by (auto simp: in_set_conv_nth)
    then have "z = cs ! (Suc s + i)" "Suc s + i < length cs" by auto
    with R show "\<not> P z" by simp
  qed
  from last_fold_split[of P "cs ! s" "drop (Suc s) cs" 0 "take s cs" None, OF _ this] R
  have "fold (\<lambda>ic a. if P (snd ic) then Some (fst ic) else a)
          (enumerate 0 (take s cs @ cs ! s # drop (Suc s) cs)) None = Some s"
    by simp
  with cs show "?L = Some s" by simp
qed

lemma band_loop_start:
  "fst (band_loop cs) = Some s
   \<longleftrightarrow> s < length cs \<and> label_is ROLL_DATA_START_COLUMN (cs ! s)
       \<and> (\<forall>j. s < j \<and> j < length cs \<longrightarrow> \<not> label_is ROLL_DATA_START_COLUMN (cs ! j))"
  unfolding band_loop_def band_fold_fst by (simp add: last_fold_iff)

lemma band_loop_end:
  "snd (band_loop cs) = Some e
   \<longleftrightarrow> e < length cs \<and> label_is ROLL_DATA_END_COLUMN (cs ! e)
       \<and> (\<forall>j. e < j \<and> j < length cs \<longrightarrow> \<not> label_is ROLL_DATA_END_COLUMN (cs ! j))"
  unfolding band_loop_def band_fold_snd by (simp add: last_fold_iff)

lemma band_loop_start_none:
  "fst (band_loop cs) = None \<longleftrightarrow> (\<forall>c\<in>set cs. \<not> label_is ROLL_DATA_START_COLUMN c)"
proof
  assume n: "fst (band_loop cs) = None"
  show "\<forall>c\<in>set cs. \<not> label_is ROLL_DATA_START_COLUMN c"
  proof (rule ccontr)
    assume "\<not> (\<forall>c\<in>set cs. \<not> label_is ROLL_DATA_START_COLUMN c)"
    then have "\<exists>c\<in>set cs. label_is ROLL_DATA_START_COLUMN c" by simp
    then obtain ys c zs where "cs = ys @ c # zs" "label_is ROLL_DATA_START_COLUMN c"
        "\<forall>z\<in>set zs. \<not> label_is ROLL_DATA_START_COLUMN z"
      by (rule split_list_last_propE)
    then have "fst (band_loop cs) = Some (length ys)"
      unfolding band_loop_def band_fold_fst
      using last_fold_split[of "label_is ROLL_DATA_START_COLUMN" c zs 0 ys None] by simp
    with n show False by simp
  qed
next
  assume "\<forall>c\<in>set cs. \<not> label_is ROLL_DATA_START_COLUMN c"
  then show "fst (band_loop cs) = None"
    unfolding band_loop_def band_fold_fst by (simp add: last_fold_none)
qed

lemma band_loop_end_none:
  "snd (band_loop cs) = None \<longleftrightarrow> (\<forall>c\<in>set cs. \<not> label_is ROLL_DATA_END_COLUMN c)"
proof
  assume n: "snd (band_loop cs) = None"
  show "\<forall>c\<in>set cs. \<not> label_is ROLL_DATA_END_COLUMN c"
  proof (rule ccontr)
    assume "\<not> (\<forall>c\<in>set cs. \<not> label_is ROLL_DATA_END_COLUMN c)"
    then have "\<exists>c\<in>set cs. label_is ROLL_DATA_END_COLUMN c" by simp
    then obtain ys c zs where "cs = ys @ c # zs" "label_is ROLL_DATA_END_COLUMN c"
        "\<forall>z\<in>set zs. \<not> label_is ROLL_DATA_END_COLUMN z"
      by (rule split_list_last_propE)
    then have "snd (band_loop cs) = Some (length ys)"
      unfolding band_loop_def band_fold_snd
      using last_fold_split[of "label_is ROLL_DATA_END_COLUMN" c zs 0 ys None] by simp
    with n show False by simp
  qed
next
  assume "\<forall>c\<in>set cs. \<not> label_is ROLL_DATA_END_COLUMN c"
  then show "snd (band_loop cs) = None"
    unfolding band_loop_def band_fold_snd by (simp add: last_fold_none)
qed

lemma slice_nth:
  "e < length cs \<Longrightarrow> take (Suc e - s) (drop s cs) = map ((!) cs) [s..<Suc e]"
proof (rule nth_equalityI)
  assume e: "e < length cs"
  then show "length (take (Suc e - s) (drop s cs)) = length (map ((!) cs) [s..<Suc e])"
    by (simp del: upt_Suc)
  fix i assume "i < length (take (Suc e - s) (drop s cs))"
  then have i: "i < Suc e - s" by simp
  then have "take (Suc e - s) (drop s cs) ! i = cs ! (s + i)"
    using e by simp
  moreover have "map ((!) cs) [s..<Suc e] ! i = cs ! (s + i)"
    using i by (simp del: upt_Suc)
  ultimately show "take (Suc e - s) (drop s cs) ! i = map ((!) cs) [s..<Suc e] ! i"
    by simp
qed

lemma band_columns_slice:
  "fst (band_loop cs) = Some s \<Longrightarrow> snd (band_loop cs) = Some e
   \<Longrightarrow> band_columns cs = map ((!) cs) [s..<Suc e]"
proof -
  assume s: "fst (band_loop cs) = Some s" and e: "snd (band_loop cs) = Some e"
  from e have "e < length cs" by (simp add: band_loop_end)
  then have "take (Suc e - s) (drop s cs) = map ((!) cs) [s..<Suc e]" by (rule slice_nth)
  moreover have "band_loop cs = (Some s, Some e)" using s e by (cases "band_loop cs") simp
  ultimately show ?thesis by (simp add: band_columns_def)
qed

lemma band_columns_missing:
  "fst (band_loop cs) = None \<or> snd (band_loop cs) = None \<Longrightarrow> band_columns cs = []"
  by (cases "band_loop cs") (auto simp: band_columns_def split: option.splits)

lemma renamed_once:
  "length (filter (\<lambda>c. c = n) (n # map (\<lambda>c. if c = sid then n else c) band)) = 1
   \<Longrightarrow> map (\<lambda>c. if c = sid then n else c) band = band"
proof -
  assume "length (filter (\<lambda>c. c = n) (n # map (\<lambda>c. if c = sid then n else c) band)) = 1"
  then have "\<forall>c\<in>set band. (if c = sid then n else c) \<noteq> n"
    by (simp add: filter_map filter_empty_conv comp_def)
  then have "\<forall>c\<in>set band. (if c = sid then n else c) = c"
    by metis
  then show ?thesis by (simp add: map_idI)
qed

lemma load_roll_data_Inr:
  "load_roll_data tn ai (Some df) = Inr t
   \<Longrightarrow> \<exists>sid. find_school_id_col df = Some sid
         \<and> roll_columns t = ''School_Id'' # band_columns (sheet_columns df)
         \<and> roll_rows t =
             map (\<lambda>row. (the (ai (the (tn (cell df row sid)))),
                          map (cell df row) (band_columns (sheet_columns df))))
               (filter (\<lambda>row. tn (cell df row sid) \<noteq> None) (sheet_rows df))
         \<and> (\<forall>row\<in>set (filter (\<lambda>row. tn (cell df row sid) \<noteq> None) (sheet_rows df)).
               ai (the (tn (cell df row sid))) \<noteq> None)"
proof -
  assume L: "load_roll_data tn ai (Some df) = Inr t"
  then obtain sid where sid: "find_school_id_col df = Some sid"
    by (cases "find_school_id_col df") (simp_all add: load_roll_data_def)
  let ?band = "band_columns (sheet_columns df)"
  let ?ren = "''School_Id'' # map (\<lambda>c. if c = sid then ''School_Id'' else c) ?band"
  let ?kept = "filter (\<lambda>row. tn (cell df row sid) \<noteq> None) (sheet_rows df)"
  have once: "length (filter (\<lambda>c. c = ''School_Id'') ?ren) = 1"
  proof (rule ccontr)
    assume "length (filter (\<lambda>c. c = ''School_Id'') ?ren) \<noteq> 1"
    then have "load_roll_data tn ai (Some df) = Inl (RuntimeError TypeError)"
      using sid by (simp add: load_roll_data_def Let_def)
    with L show False by simp
  qed
  then have same: "map (\<lambda>c. if c = sid then ''School_Id'' else c) ?band = ?band"
    by (rule renamed_once)
  have conv: "\<forall>row\<in>set ?kept. ai (the (tn (cell df row sid))) \<noteq> None"
  proof (rule ccontr)
    assume n: "\<not> (\<forall>row\<in>set ?kept. ai (the (tn (cell df row sid))) \<noteq> None)"
    have "load_roll_data tn ai (Some df) = Inl (RuntimeError ValueError)"
      using sid once n by (simp add: load_roll_data_def Let_def)
    with L show False by simp
  qed
  have "load_roll_data tn ai (Some df) =
          Inr \<lparr>warned = \<not> band_found (sheet_columns df), roll_columns = ?ren,
               roll_rows = map (\<lambda>row. (the (ai (the (tn (cell df row sid)))),
                                         map (cell df row) ?band)) ?kept\<rparr>"
    using sid once conv by (auto simp add: load_roll_data_def Let_def)
  with L have "t = \<lparr>warned = \<not> band_found (sheet_columns df), roll_columns = ?ren,
               roll_rows = map (\<lambda>row. (the (ai (the (tn (cell df row sid)))),
                                         map (cell df row) ?band)) ?kept\<rparr>"
    by simp
  then have "roll_columns t = ''School_Id'' # ?band"
    and "roll_rows t = map (\<lambda>row. (the (ai (the (tn (cell df row sid)))),
                                    map (cell df row) ?band)) ?kept"
    using same by simp_all
  then show ?thesis using sid conv by (intro exI[of _ sid] conjI)
qed

text \<open>
  Claim C3, amended. The label of a column is its name without the characters that are
  not letters, compared in upper case. The start index is that of the last column whose
  label is the start label, the end index that of the last column whose label is the end
  label, and the band is the columns from the start index through the end index in the
  order of the sheet. When the extraction returns a table, its columns are the
  identifier followed by the band, and its rows are those whose identifier coerces, in
  their order, each with the integer of its identifier. For the names SchoolID, AX, AY,
  AZ, BM, BN the columns are the identifier, AY, AZ and BM, and the row whose identifier
  does not coerce is left out.
\<close>

theorem load_roll_data_extracts_band:
  "(fst (band_loop (sheet_columns df)) = Some s
      \<longleftrightarrow> s < length (sheet_columns df)
          \<and> map upper (filter isalpha (sheet_columns df ! s)) = map upper ROLL_DATA_START_COLUMN
          \<and> (\<forall>j. s < j \<and> j < length (sheet_columns df)
                 \<longrightarrow> map upper (filter isalpha (sheet_columns df ! j))
                       \<noteq> map upper ROLL_DATA_START_COLUMN))
   \<and> (snd (band_loop (sheet_columns df)) = Some e
      \<longleftrightarrow> e < length (sheet_columns df)
          \<and> map upper (filter isalpha (sheet_columns df ! e)) = map upper ROLL_DATA_END_COLUMN
          \<and> (\<forall>j. e < j \<and> j < length (sheet_columns df)
                 \<longrightarrow> map upper (filter isalpha (sheet_columns df ! j))
                       \<noteq> map upper ROLL_DATA_END_COLUMN))
   \<and> (fst (band_loop (sheet_columns df)) = Some s \<and> snd (band_loop (sheet_columns df)) = Some e
      \<longrightarrow> band_columns (sheet_columns df) = map ((!) (sheet_columns df)) [s..<Suc e])
   \<and> (load_roll_data tn ai (Some df) = Inr t
      \<longrightarrow> (\<exists>sid. find_school_id_col df = Some sid
             \<and> roll_columns t = ''School_Id'' # band_columns (sheet_columns df)
             \<and> roll_rows t =
                 map (\<lambda>row. (the (ai (the (tn (cell df row sid)))),
                              map (cell df row) (band_columns (sheet_columns df))))
                   (filter (\<lambda>row. tn (cell df row sid) \<noteq> None) (sheet_rows df))
             \<and> (\<forall>row\<in>set (filter (\<lambda>row. tn (cell df row sid) \<noteq> None) (sheet_rows df)).
                   ai (the (tn (cell df row sid))) \<noteq> None)))
   \<and> load_roll_data (\<lambda>c. c) Some (Some band_sheet) =
       Inr \<lparr>warned = False, roll_columns = [''School_Id'', ''AY'', ''AZ'', ''BM''],
            roll_rows = [(7, [Some 2, Some 3, Some 4])]\<rparr>"
proof (intro conjI)
  show "fst (band_loop (sheet_columns df)) = Some s
      \<longleftrightarrow> s < length (sheet_columns df)
          \<and> map upper (filter isalpha (sheet_columns df ! s)) = map upper ROLL_DATA_START_COLUMN
          \<and> (\<forall>j. s < j \<and> j < length (sheet_columns df)
                 \<longrightarrow> map upper (filter isalpha (sheet_columns df ! j))
                       \<noteq> map upper ROLL_DATA_START_COLUMN)"
    using band_loop_start[of "sheet_columns df" s] by (simp add: label_is_def col_letter_def)
  show "snd (band_loop (sheet_columns df)) = Some e
      \<longleftrightarrow> e < length (sheet_columns df)
          \<and> map upper (filter isalpha (sheet_columns df ! e)) = map upper ROLL_DATA_END_COLUMN
          \<and> (\<forall>j. e < j \<and> j < length (sheet_columns df)
                 \<longrightarrow> map upper (filter isalpha (sheet_columns df ! j))
                       \<noteq> map upper ROLL_DATA_END_COLUMN)"
    using band_loop_end[of "sheet_columns df" e] by (simp add: label_is_def col_letter_def)
  show "fst (band_loop (sheet_columns df)) = Some s \<and> snd (band_loop (sheet_columns df)) = Some e
      \<longrightarrow> band_columns (sheet_columns df) = map ((!) (sheet_columns df)) [s..<Suc e]"
    using band_columns_slice[of "sheet_columns df" s e] by blast
  show "load_roll_data tn ai (Some df) = Inr t
      \<longrightarrow> (\<exists>sid. find_school_id_col df = Some sid
             \<and> roll_columns t = ''School_Id'' # band_columns (sheet_columns df)
             \<and> roll_rows t =
                 map (\<lambda>row. (the (ai (the (tn (cell df row sid)))),
                              map (cell df row) (band_columns (sheet_columns df))))
                   (filter (\<lambda>row. tn (cell df row sid) \<noteq> None) (sheet_rows df))
             \<and> (\<forall>row\<in>set (filter (\<lambda>row. tn (cell df row sid) \<noteq> None) (sheet_rows df)).
                   ai (the (tn (cell df row sid))) \<noteq> None))"
    using load_roll_data_Inr[of tn ai df t] by blast
  show "load_roll_data (\<lambda>c. c) Some (Some band_sheet) =
       Inr \<lparr>warned = False, roll_columns = [''School_Id'', ''AY'', ''AZ'', ''BM''],
            roll_rows = [(7, [Some 2, Some 3, Some 4])]\<rparr>"
    by code_simp
qed

theorem load_roll_data_extracts_band_witness:
  "fst (band_loop (sheet_columns twice_sheet)) = Some 3
   \<and> snd (band_loop (sheet_columns twice_sheet)) = Some 4
   \<and> band_columns (sheet_columns twice_sheet) = [''AY.1'', ''BM'']
   \<and> find_school_id_col twice_sheet = Some ''SchoolID''
   \<and> roll_columns \<lparr>warned = False, roll_columns = [''School_Id'', ''AY.1'', ''BM''],
                    roll_rows = [(7::int, [Some (3::int), Some 4])]\<rparr>
       = ''School_Id'' # band_columns (sheet_columns twice_sheet)"
proof -
  let ?t = "\<lparr>warned = False, roll_columns = [''School_Id'', ''AY.1'', ''BM''],
             roll_rows = [(7::int, [Some (3::int), Some 4])]\<rparr>"
  note T = load_roll_data_extracts_band[of twice_sheet 3 4 "\<lambda>c. c" Some ?t]
  have s: "fst (band_loop (sheet_columns twice_sheet)) = Some 3" by code_simp
  have e: "snd (band_loop (sheet_columns twice_sheet)) = Some 4" by code_simp
  have l: "load_roll_data (\<lambda>c. c) Some (Some twice_sheet) = Inr ?t" by code_simp
  have c: "map ((!) (sheet_columns twice_sheet)) [3..<Suc 4] = [''AY.1'', ''BM'']" by code_simp
  have f: "find_school_id_col twice_sheet = Some ''SchoolID''" by code_simp
  from T s e have "band_columns (sheet_columns twice_sheet)
                     = map ((!) (sheet_columns twice_sheet)) [3..<Suc 4]" by blast
  then have b: "band_columns (sheet_columns twice_sheet) = [''AY.1'', ''BM'']"
    unfolding c .
  from T l have "\<exists>sid. find_school_id_col twice_sheet = Some sid
      \<and> roll_columns ?t = ''School_Id'' # band_columns (sheet_columns twice_sheet)
      \<and> roll_rows ?t =
          map (\<lambda>row. (the (Some (the (cell twice_sheet row sid))),
                       map (cell twice_sheet row) (band_columns (sheet_columns twice_sheet))))
            (filter (\<lambda>row. cell twice_sheet row sid \<noteq> None) (sheet_rows twice_sheet))
      \<and> (\<forall>row\<in>set (filter (\<lambda>row. cell twice_sheet row sid \<noteq> None) (sheet_rows twice_sheet)).
            Some (the (cell twice_sheet row sid)) \<noteq> None)"
    by blast
  then have r: "roll_columns ?t = ''School_Id'' # band_columns (sheet_columns twice_sheet)"
    by blast
  show ?thesis by (intro conjI s e b f r)
qed

text \<open>
  The claim as it is written fails on the start of the band: with two columns whose
  label is the start label, the band starts at the last of them, not at the first.
\<close>

theorem band_first_column_counterexample:
  "map upper (filter isalpha (sheet_columns twice_sheet ! 1)) = map upper ROLL_DATA_START_COLUMN
   \<and> load_roll_data (\<lambda>c. c) Some (Some twice_sheet) =
       Inr \<lparr>warned = False, roll_columns = [''School_Id'', ''AY.1'', ''BM''],
            roll_rows = [(7, [Some 3, Some 4])]\<rparr>
   \<and> [''School_Id'', ''AY.1'', ''BM''] \<noteq> [''School_Id'', ''AY'', ''X'', ''AY.1'', ''BM'']"
  by code_simp

text \<open>
  Claim C7, amended. When the start label or the end label is the label of no column,
  the sheet has an identifier column (a name with school and id, or else a first column
  of a sheet with at least one column and one row), and every identifier that coerces to
  a number has an integer (none is infinite), the extraction does not fail: it warns and
  returns the table of the identifier column alone, with the rows whose identifier
  coerces.
\<close>

theorem load_roll_data_without_band:
  assumes missing:
      "(\<forall>c\<in>set (sheet_columns df). map upper (filter isalpha c) \<noteq> map upper ROLL_DATA_START_COLUMN)
       \<or> (\<forall>c\<in>set (sheet_columns df). map upper (filter isalpha c) \<noteq> map upper ROLL_DATA_END_COLUMN)"
    and ident: "(\<exists>c\<in>set (sheet_columns df). is_school_id_name c) \<or> \<not> df_empty df"
    and finite_ids:
      "\<forall>sid n. find_school_id_col df = Some sid
               \<longrightarrow> (\<forall>row\<in>set (sheet_rows df). tn (cell df row sid) = Some n \<longrightarrow> ai n \<noteq> None)"
  shows "\<exists>sid. find_school_id_col df = Some sid
           \<and> load_roll_data tn ai (Some df) =
               Inr \<lparr>warned = True, roll_columns = [''School_Id''],
                    roll_rows = map (\<lambda>row. (the (ai (the (tn (cell df row sid)))), []))
                                  (filter (\<lambda>row. tn (cell df row sid) \<noteq> None) (sheet_rows df))\<rparr>"
proof -
  from missing have none:
      "fst (band_loop (sheet_columns df)) = None \<or> snd (band_loop (sheet_columns df)) = None"
    unfolding band_loop_start_none band_loop_end_none
    by (simp add: label_is_def col_letter_def)
  then have band: "band_columns (sheet_columns df) = []"
    by (rule band_columns_missing)
  from none have nf: "\<not> band_found (sheet_columns df)"
    by (auto simp: band_found_def)
  obtain sid where sid: "find_school_id_col df = Some sid"
  proof (cases "find is_school_id_name (sheet_columns df)")
    case None
    then have "\<not> (\<exists>c\<in>set (sheet_columns df). is_school_id_name c)"
      by (simp add: find_None_iff)
    with ident have "\<not> df_empty df" by blast
    with None have "find_school_id_col df = Some (hd (sheet_columns df))"
      by (simp add: find_school_id_col_def)
    then show ?thesis by (rule that)
  next
    case (Some c)
    then have "find_school_id_col df = Some c" by (simp add: find_school_id_col_def)
    then show ?thesis by (rule that)
  qed
  let ?kept = "filter (\<lambda>row. tn (cell df row sid) \<noteq> None) (sheet_rows df)"
  have conv: "\<not> (\<exists>row\<in>set ?kept. ai (the (tn (cell df row sid))) = None)"
  proof
    assume "\<exists>row\<in>set ?kept. ai (the (tn (cell df row sid))) = None"
    then obtain row where row: "row \<in> set (sheet_rows df)" "tn (cell df row sid) \<noteq> None"
        "ai (the (tn (cell df row sid))) = None"
      by auto
    from row(2) obtain n where n: "tn (cell df row sid) = Some n" by blast
    with finite_ids sid row(1) have "ai n \<noteq> None" by blast
    with row(3) n show False by simp
  qed
  have "load_roll_data tn ai (Some df) =
          Inr \<lparr>warned = True, roll_columns = [''School_Id''],
               roll_rows = map (\<lambda>row. (the (ai (the (tn (cell df row sid)))), [])) ?kept\<rparr>"
    using sid band nf conv by (auto simp add: load_roll_data_def Let_def)
  with sid show ?thesis by blast
qed

theorem load_roll_data_without_band_witness:
  "find_school_id_col plain_sheet = Some ''School ID''
   \<and> load_roll_data (\<lambda>c. c) Some (Some plain_sheet) =
       Inr \<lparr>warned = True, roll_columns = [''School_Id''], roll_rows = [(7, []), (9, [])]\<rparr>"
proof -
  have m: "(\<forall>c\<in>set (sheet_columns plain_sheet).
              map upper (filter isalpha c) \<noteq> map upper ROLL_DATA_START_COLUMN)
       \<or> (\<forall>c\<in>set (sheet_columns plain_sheet).
              map upper (filter isalpha c) \<noteq> map upper ROLL_DATA_END_COLUMN)"
    by code_simp
  have i: "(\<exists>c\<in>set (sheet_columns plain_sheet). is_school_id_name c) \<or> \<not> df_empty plain_sheet"
    by code_simp
  have fin: "\<forall>sid n. find_school_id_col plain_sheet = Some sid
               \<longrightarrow> (\<forall>row\<in>set (sheet_rows plain_sheet).
                      (\<lambda>c. c) (cell plain_sheet row sid) = Some n \<longrightarrow> Some n \<noteq> None)"
    by simp
  have f: "find_school_id_col plain_sheet = Some ''School ID''" by code_simp
  have r: "map (\<lambda>row. (the (Some (the (cell plain_sheet row ''School ID''))), [] :: int option list))
             (filter (\<lambda>row. cell plain_sheet row ''School ID'' \<noteq> None) (sheet_rows plain_sheet))
           = [(7, []), (9, [])]"
    by code_simp
  from load_roll_data_without_band[OF m i fin] f r
  show ?thesis by auto
qed

text \<open>
  The claim as it is written fails on a sheet without rows whose names do not tell the
  identifier column: no column is chosen, and the extraction fails. It also fails on a
  sheet with an identifier that coerces to an infinite number, which has no integer.
\<close>

theorem load_roll_data_empty_sheet_counterexample:
  "sheet_columns bare_sheet = [''Name'']
   \<and> map upper (filter isalpha ''Name'') \<noteq> map upper ROLL_DATA_START_COLUMN
   \<and> load_roll_data (\<lambda>c. c) Some (Some bare_sheet) = Inl (RuntimeError KeyError)
   \<and> sheet_columns inf_sheet = [''School ID'', ''Name'']
   \<and> map upper (filter isalpha ''School ID'') \<noteq> map upper ROLL_DATA_START_COLUMN
   \<and> load_roll_data (\<lambda>c. c) astype_number (Some inf_sheet) = Inl (RuntimeError ValueError)"
  by code_simp

section \<open>Matching\<close>









section \<open>Export\<close>

lemma strip_id: "s \<noteq> [] \<Longrightarrow> \<not> isspace (hd s) \<Longrightarrow> \<not> isspace (last s) \<Longrightarrow> strip s = s"
proof -
  assume s: "s \<noteq> []" "\<not> isspace (hd s)" "\<not> isspace (last s)"
  then have a: "dropWhile isspace s = s" by (simp add: dropWhile_hd_id)
  have "dropWhile isspace (rev s) = rev s"
    using s by (simp add: dropWhile_hd_id hd_rev)
  with a show ?thesis by (simp add: strip_def)
qed

lemma strip_all_space: "\<forall>c\<in>set s. isspace c \<Longrightarrow> strip s = []"
proof -
  assume "\<forall>c\<in>set s. isspace c"
  then have d: "dropWhile isspace s = []" by simp
  show ?thesis unfolding strip_def d by simp
qed

lemma re_sub_space: "\<forall>c\<in>set s. isspace c \<Longrightarrow> re_sub_illegal s = s"
  unfolding re_sub_illegal_def by (rule map_idI) (auto simp: isspace_def)

lemma re_sub_all_illegal:
  "\<forall>c\<in>set s. c \<in> set [CHR 0x5C, CHR ''/'', CHR '':'', CHR ''*'', CHR ''?'', CHR 0x22,
                           CHR ''<'', CHR ''>'', CHR ''|'']
   \<Longrightarrow> re_sub_illegal s = replicate (length s) CHR ''_''"
  unfolding re_sub_illegal_def by (induction s) simp_all

lemma strip_underscores: "strip (replicate (Suc n) CHR ''_'') = replicate (Suc n) CHR ''_''"
proof (rule strip_id)
  show "replicate (Suc n) CHR ''_'' \<noteq> []" by simp
  show "\<not> isspace (hd (replicate (Suc n) CHR ''_''))" by (simp add: isspace_def)
  have "last (replicate (Suc n) CHR ''_'') = CHR ''_''"
    by (rule last_replicate) simp
  then show "\<not> isspace (last (replicate (Suc n) CHR ''_''))"
    by (simp only: isspace_def) simp
qed

lemma export_csv_path:
  "snd (export_csv w df out_dir base_name) =
     (out_dir, (if strip (re_sub_illegal base_name) = [] then ''schools_filtered''
                else strip (re_sub_illegal base_name)) @ ''.csv'')"
  by (simp add: export_csv_def Let_def split_def)

lemma export_excel_table_path:
  "\<exists>w'. export_excel_table True w df out_dir base_name =
     Inr (w', (out_dir, (if strip (re_sub_illegal base_name) = [] then ''schools_filtered''
                         else strip (re_sub_illegal base_name)) @ ''.xlsx''))"
  by (simp add: export_excel_table_def Let_def split_def)

text \<open>
  Claim C6, amended. Both exporters name their file after the same base: the base name
  with each of the nine characters replaced by an underscore and then trimmed, or the
  default \<^verbatim>\<open>schools_filtered\<close> when nothing is left. \<^verbatim>\<open>My:Export*2025\<close> gives
  \<^verbatim>\<open>My_Export_2025\<close>. The default is taken for a base name that is empty or white
  space only; a base name made of illegal characters only gives as many underscores.
\<close>

theorem export_base_name_sanitized:
  "snd (export_csv w df out_dir base_name) =
     (out_dir, (if strip (re_sub_illegal base_name) = [] then ''schools_filtered''
                else strip (re_sub_illegal base_name)) @ ''.csv'')
   \<and> (\<exists>w'. export_excel_table True w df out_dir base_name =
          Inr (w', (out_dir, (if strip (re_sub_illegal base_name) = [] then ''schools_filtered''
                              else strip (re_sub_illegal base_name)) @ ''.xlsx'')))
   \<and> re_sub_illegal base_name =
       map (\<lambda>c. if c = CHR 0x5C \<or> c = CHR ''/'' \<or> c = CHR '':'' \<or> c = CHR ''*'' \<or> c = CHR ''?''
                    \<or> c = CHR 0x22 \<or> c = CHR ''<'' \<or> c = CHR ''>'' \<or> c = CHR ''|''
                 then CHR ''_'' else c) base_name
   \<and> snd (export_csv w df out_dir ''My:Export*2025'') = (out_dir, ''My_Export_2025.csv'')
   \<and> ((\<forall>c\<in>set base_name. isspace c)
        \<longrightarrow> snd (export_csv w df out_dir base_name) = (out_dir, ''schools_filtered.csv''))
   \<and> (base_name \<noteq> []
        \<and> (\<forall>c\<in>set base_name. c \<in> set [CHR 0x5C, CHR ''/'', CHR '':'', CHR ''*'', CHR ''?'',
                                          CHR 0x22, CHR ''<'', CHR ''>'', CHR ''|''])
        \<longrightarrow> snd (export_csv w df out_dir base_name) =
              (out_dir, replicate (length base_name) CHR ''_'' @ ''.csv''))"
proof (intro conjI impI)
  show "snd (export_csv w df out_dir base_name) =
     (out_dir, (if strip (re_sub_illegal base_name) = [] then ''schools_filtered''
                else strip (re_sub_illegal base_name)) @ ''.csv'')"
    by (rule export_csv_path)
  show "\<exists>w'. export_excel_table True w df out_dir base_name =
          Inr (w', (out_dir, (if strip (re_sub_illegal base_name) = [] then ''schools_filtered''
                              else strip (re_sub_illegal base_name)) @ ''.xlsx''))"
    by (rule export_excel_table_path)
  show "re_sub_illegal base_name =
       map (\<lambda>c. if c = CHR 0x5C \<or> c = CHR ''/'' \<or> c = CHR '':'' \<or> c = CHR ''*'' \<or> c = CHR ''?''
                    \<or> c = CHR 0x22 \<or> c = CHR ''<'' \<or> c = CHR ''>'' \<or> c = CHR ''|''
                 then CHR ''_'' else c) base_name"
    by (simp add: re_sub_illegal_def)
  have "strip (re_sub_illegal ''My:Export*2025'') = ''My_Export_2025''"
    by (simp add: re_sub_illegal_def strip_def isspace_def)
  then show "snd (export_csv w df out_dir ''My:Export*2025'') = (out_dir, ''My_Export_2025.csv'')"
    unfolding export_csv_path by simp
next
  assume sp: "\<forall>c\<in>set base_name. isspace c"
  then have "strip (re_sub_illegal base_name) = []"
    by (simp add: re_sub_space strip_all_space)
  then show "snd (export_csv w df out_dir base_name) = (out_dir, ''schools_filtered.csv'')"
    unfolding export_csv_path by simp
next
  assume il: "base_name \<noteq> []
        \<and> (\<forall>c\<in>set base_name. c \<in> set [CHR 0x5C, CHR ''/'', CHR '':'', CHR ''*'', CHR ''?'',
                                          CHR 0x22, CHR ''<'', CHR ''>'', CHR ''|''])"
  then obtain n where n: "length base_name = Suc n" by (cases base_name) auto
  from il have "re_sub_illegal base_name = replicate (Suc n) CHR ''_''"
    using re_sub_all_illegal[of base_name] n by simp
  then have "strip (re_sub_illegal base_name) = replicate (Suc n) CHR ''_''"
    by (simp only: strip_underscores)
  then show "snd (export_csv w df out_dir base_name) =
              (out_dir, replicate (length base_name) CHR ''_'' @ ''.csv'')"
    unfolding export_csv_path n by simp
qed

theorem export_base_name_sanitized_witness:
  "snd (export_csv world_example 0 ''out'' '' '') = (''out'', ''schools_filtered.csv'')
   \<and> snd (export_csv world_example 0 ''out'' ''<>'') = (''out'', ''__.csv'')"
proof -
  have a: "\<forall>c\<in>set '' ''. isspace c" by (simp add: isspace_def)
  have b: "''<>'' \<noteq> []
        \<and> (\<forall>c\<in>set ''<>''. c \<in> set [CHR 0x5C, CHR ''/'', CHR '':'', CHR ''*'', CHR ''?'',
                                          CHR 0x22, CHR ''<'', CHR ''>'', CHR ''|''])"
    by simp
  have c: "replicate (length ''<>'') CHR ''_'' @ ''.csv'' = ''__.csv''" by simp
  from export_base_name_sanitized[of world_example 0 "''out''" "'' ''"] a
  have x: "snd (export_csv world_example 0 ''out'' '' '') = (''out'', ''schools_filtered.csv'')"
    by blast
  from export_base_name_sanitized[of world_example 0 "''out''" "''<>''"] b
  have "snd (export_csv world_example 0 ''out'' ''<>'') =
          (''out'', replicate (length ''<>'') CHR ''_'' @ ''.csv'')"
    by blast
  then have y: "snd (export_csv world_example 0 ''out'' ''<>'') = (''out'', ''__.csv'')"
    unfolding c .
  show ?thesis by (intro conjI x y)
qed

text \<open>
  The claim as it is written fails on a base name of illegal characters only: it becomes
  underscores, which are not empty, and the default is not taken.
\<close>

theorem export_all_illegal_counterexample:
  "re_sub_illegal ''???'' = ''___''
   \<and> snd (export_csv world_example 0 ''out'' ''???'') = (''out'', ''___.csv'')
   \<and> snd (export_csv world_example 0 ''out'' ''???'') \<noteq> (''out'', ''schools_filtered.csv'')
   \<and> export_excel_table True world_example 0 ''out'' ''???''
       \<noteq> export_excel_table True world_example 0 ''out'' ''schools_filtered''"
proof -
  have s: "strip (re_sub_illegal ''???'') = ''___''"
    by (simp add: re_sub_illegal_def strip_def isspace_def)
  have t: "strip (re_sub_illegal ''schools_filtered'') = ''schools_filtered''"
    by (simp add: re_sub_illegal_def strip_def isspace_def)
  have r: "re_sub_illegal ''???'' = ''___''"
    by (simp add: re_sub_illegal_def)
  have x: "snd (export_csv world_example 0 ''out'' ''???'') = (''out'', ''___.csv'')"
    unfolding export_csv_path s by simp
  have y: "export_excel_table True world_example 0 ''out'' ''???''
       \<noteq> export_excel_table True world_example 0 ''out'' ''schools_filtered''"
    by (simp add: export_excel_table_def Let_def split_def s t)
  show ?thesis using r x y by simp
qed

lemma df_copy_keeps:
  "a < length (heap w) \<Longrightarrow> heap (fst (df_copy w df)) ! a = heap w ! a
     \<and> length (heap w) \<le> length (heap (fst (df_copy w df)))"
  by (simp add: df_copy_def nth_append)

lemma df_rename_keeps:
  "a < length (heap w) \<Longrightarrow> heap (fst (df_rename f w df)) ! a = heap w ! a
     \<and> length (heap w) \<le> length (heap (fst (df_rename f w df)))"
  by (simp add: df_rename_def nth_append)

lemma write_file_heap: "heap (write_file w p f) = heap w"
  by (simp add: write_file_def)

lemma export_csv_heap:
  "heap (fst (export_csv w df out_dir base_name)) =
     heap (fst (df_rename field_alias (fst (df_copy w df)) (snd (df_copy w df))))"
  by (simp add: export_csv_def Let_def split_def write_file_heap)

lemma export_excel_table_heap:
  "export_excel_table x w df out_dir base_name = Inr (w', p)
   \<Longrightarrow> heap w' = heap (fst (df_rename field_alias (fst (df_copy w df)) (snd (df_copy w df))))"
  by (auto simp: export_excel_table_def Let_def split_def write_file_heap split: if_splits)

lemma copy_rename_keeps:
  "a < length (heap w)
   \<Longrightarrow> heap (fst (df_rename f (fst (df_copy w df)) (snd (df_copy w df)))) ! a = heap w ! a"
proof -
  assume a: "a < length (heap w)"
  from df_copy_keeps[OF a, of df]
  have c: "heap (fst (df_copy w df)) ! a = heap w ! a"
    and l: "a < length (heap (fst (df_copy w df)))"
    using a by simp_all
  from df_rename_keeps[OF l, of f "snd (df_copy w df)"] c show ?thesis by simp
qed

text \<open>
  Claim C10. The exporters do not change the table they are given, nor any other table
  of the store: after \<^verbatim>\<open>export_csv\<close>, and after \<^verbatim>\<open>export_excel_table\<close> whether it
  returns or raises, every table that was in the store has its column names and its
  cells; the renamed columns are those of a new table.
\<close>

theorem exports_leave_table:
  "a < length (heap w)
   \<Longrightarrow> heap (fst (export_csv w df out_dir base_name)) ! a = heap w ! a
     \<and> (\<forall>w' p. export_excel_table x w df out_dir base_name = Inr (w', p)
            \<longrightarrow> heap w' ! a = heap w ! a)
     \<and> (df < length (heap w)
         \<longrightarrow> df_columns (heap (fst (export_csv w df out_dir base_name)) ! df)
               = df_columns (heap w ! df)
           \<and> df_rows (heap (fst (export_csv w df out_dir base_name)) ! df)
               = df_rows (heap w ! df))"
  using copy_rename_keeps[of a w field_alias df] copy_rename_keeps[of df w field_alias df]
  by (auto simp: export_csv_heap dest: export_excel_table_heap)

theorem exports_leave_table_witness:
  "heap (fst (export_csv world_example 0 ''out'' ''schools'')) ! 0
     = \<lparr>df_columns = [''School_Id'', ''Org_Name''], df_rows = [ [''1'', ''One School'']]\<rparr>
   \<and> heap (fst (export_csv world_example 0 ''out'' ''schools'')) ! 2
     = \<lparr>df_columns = [''MoEID'', ''Org_Name''], df_rows = [ [''1'', ''One School'']]\<rparr>"
proof -
  have a: "0 < length (heap world_example)" by (simp add: world_example_def)
  have h: "heap world_example ! 0
     = \<lparr>df_columns = [''School_Id'', ''Org_Name''], df_rows = [ [''1'', ''One School'']]\<rparr>"
    by (simp add: world_example_def)
  from exports_leave_table[OF a, of 0 "''out''" "''schools''" True]
  have x: "heap (fst (export_csv world_example 0 ''out'' ''schools'')) ! 0 = heap world_example ! 0"
    by blast
  have y: "heap (fst (export_csv world_example 0 ''out'' ''schools'')) ! 2
     = \<lparr>df_columns = [''MoEID'', ''Org_Name''], df_rows = [ [''1'', ''One School'']]\<rparr>"
    by (simp add: export_csv_heap df_copy_def df_rename_def world_example_def field_alias_def
          FIELD_ALIASES_def)
  show ?thesis using x h y by simp
qed


end
